theory Spec2Isabelle
  imports Main "HOL-Library.Word"
begin

unbundle bit_operations_syntax

section \<open>Machine integers, panics and slices\<close>

text \<open>
  Go's \<open>int32\<close> values are held as integers in the range \<open>-2^31 ..< 2^31\<close>; every
  addition, subtraction, multiplication and conversion of the source is wrapped by
  \<open>int32\<close>.  Shifts and masks of an \<open>int32\<close> (\<open>i >> 3\<close>, \<open>i & 63\<close>, \<open>i & ^7\<close>) are
  the two's-complement operations of \<open>int\<close>.  \<open>uint64\<close>, \<open>uint16\<close> and \<open>byte\<close> are words.
\<close>

type_synonym byte = "8 word"
type_synonym u16 = "16 word"
type_synonym u64 = "64 word"

definition int32 :: "int \<Rightarrow> int" where
  "int32 x = (x + 2 ^ 31) mod 2 ^ 32 - 2 ^ 31"

text \<open>
  A run-time panic of the Go program is a value: an index or slice bound out of range, a
  nil pointer dereference, the explicit \<open>panic("impossible!!")\<close> of \<open>getLeaf\<close>.  The
  loops of the source are not bounded by their text, so they carry a fuel counter and
  \<open>OutOfFuel\<close> is the result of a loop that has not finished within it.
\<close>

datatype error = IndexOutOfRange | NilPointer | Impossible | OutOfFuel

type_synonym 'a res = "error + 'a"

definition ebind :: "'a res \<Rightarrow> ('a \<Rightarrow> 'b res) \<Rightarrow> 'b res" where
  "ebind m f = (case m of Inl e \<Rightarrow> Inl e | Inr x \<Rightarrow> f x)"

definition deref :: "'a option \<Rightarrow> 'a res" where
  "deref p = (case p of None \<Rightarrow> Inl NilPointer | Some x \<Rightarrow> Inr x)"

text \<open>\<open>xs[i]\<close>, \<open>xs[a:b]\<close> and \<open>xs[a:]\<close> with Go's bound checks.\<close>

definition at :: "'a list \<Rightarrow> int \<Rightarrow> 'a res" where
  "at xs i = (if 0 \<le> i \<and> nat i < length xs then Inr (xs ! nat i) else Inl IndexOutOfRange)"

definition slice :: "'a list \<Rightarrow> int \<Rightarrow> int \<Rightarrow> 'a list res" where
  "slice xs a b =
     (if 0 \<le> a \<and> a \<le> b \<and> nat b \<le> length xs
      then Inr (take (nat b - nat a) (drop (nat a) xs))
      else Inl IndexOutOfRange)"

definition slice_from :: "'a list \<Rightarrow> int \<Rightarrow> 'a list res" where
  "slice_from xs a =
     (if 0 \<le> a \<and> nat a \<le> length xs then Inr (drop (nat a) xs) else Inl IndexOutOfRange)"

section \<open>The packed representation\<close>

text \<open>
  The message types \<open>Bitmap\<close>, \<open>VLenArray\<close> and \<open>Slim\<close> are declared outside the two
  source files; their fields are the ones the query code reads.  A pointer field is an
  \<open>option\<close> (\<open>None\<close> is nil).
\<close>

record Bitmap =
  Words :: "u64 list"
  RankIndex :: "int list"
  SelectIndex :: "int list"

record VLenArray =
  EltCnt :: int
  PresenceBM :: "Bitmap option"
  PositionBM :: "Bitmap option"
  FixedSize :: int
  Bytes :: "byte list"

record Slim =
  BigInnerCnt :: int
  ShortSize :: int
  ShortTable :: "u16 list"
  NodeTypeBM :: "Bitmap option"
  Inners :: "Bitmap option"
  ShortBM :: "Bitmap option"
  InnerPrefixes :: "VLenArray option"
  LeafPrefixes :: "VLenArray option"
  Leaves :: "VLenArray option"

text \<open>The values \<open>st.vars\<close> holds; \<open>init\<close>, which computes them, is not in the sources.\<close>

record slimVars =
  BigInnerOffset :: int
  ShortMinusInner :: int
  ShortMask :: u64

text \<open>
  \<open>encoder_Decode\<close> is the value codec's \<open>Decode\<close> (its first result, the number of bytes
  read, is dropped); a decoded value is an \<open>interface{}\<close>, \<open>None\<close> for nil.
\<close>

record 'v SlimTrie =
  inner :: Slim
  vars :: slimVars
  encoder_Decode :: "byte list \<Rightarrow> 'v option"

text \<open>
  The functions of package \<open>bitstr\<close> the query code calls.  The package is not part of
  the sources, so the two functions are parameters of the model.
\<close>

record bitstr =
  Len :: "byte list \<Rightarrow> int res"
  StrCmpUpto :: "byte list \<Rightarrow> byte list \<Rightarrow> int res"

abbreviation (input) bigWordSize :: int where "bigWordSize \<equiv> 8"
abbreviation (input) wordSize4 :: int where "wordSize4 \<equiv> 4"
abbreviation (input) innerSize :: int where "innerSize \<equiv> 17"
abbreviation (input) bigInnerSize :: int where "bigInnerSize \<equiv> 257"

record querySession =
  keyBitLen :: int
  key :: "byte list"
  wordSize :: int
  qr_from :: int
  qr_to :: int
  bm :: u64
  isInner :: int
  ithInner :: int
  hasInnerPrefix :: bool
  innerPrefixLen :: int
  innerPrefix :: "byte list"
  ithLeaf :: int
  hasLeafPrefix :: bool
  leafPrefix :: "byte list"

text \<open>The zero value \<open>&querySession{}\<close>.\<close>

definition querySession0 :: querySession where
  "querySession0 =
     \<lparr>keyBitLen = 0, key = [], wordSize = 0, qr_from = 0, qr_to = 0, bm = 0, isInner = 0,
      ithInner = 0, hasInnerPrefix = False, innerPrefixLen = 0, innerPrefix = [],
      ithLeaf = 0, hasLeafPrefix = False, leafPrefix = []\<rparr>"

section \<open>Bit primitives\<close>

definition OnesCount64 :: "u64 \<Rightarrow> int" where
  "OnesCount64 w = int (length (filter (bit w) [0..<64]))"

text \<open>The tables \<open>bitmap.Mask\<close> (\<open>Mask[j] = 1<<j - 1\<close>, \<open>j \<le> 64\<close>) and \<open>bitmap.Bit\<close>.\<close>

definition Mask :: "int \<Rightarrow> u64 res" where
  "Mask j = (if 0 \<le> j \<and> j \<le> 64 then Inr (mask (nat j)) else Inl IndexOutOfRange)"

definition Bit :: "int \<Rightarrow> u64 res" where
  "Bit j = (if 0 \<le> j \<and> j < 64 then Inr (push_bit (nat j) 1) else Inl IndexOutOfRange)"

text \<open>Bit \<open>p\<close> of the stream: bit \<open>p mod 64\<close> of word \<open>p div 64\<close>, least significant first.\<close>

definition bit_at :: "u64 list \<Rightarrow> nat \<Rightarrow> bool" where
  "bit_at ws p = bit (ws ! (p div 64)) (p mod 64)"

definition rank_before :: "u64 list \<Rightarrow> nat \<Rightarrow> int" where
  "rank_before ws p =
     sum_list (map OnesCount64 (take (p div 64) ws)) +
     OnesCount64 ((ws ! (p div 64)) AND mask (p mod 64))"

text \<open>
  Modelled from the spec: \<open>bitmap.Rank64\<close> and \<open>bitmap.Rank128\<close> belong to a package that
  is not in the sources.  The spec gives one contract for both: the count of 1-bits in
  positions \<open>[0, i)\<close> and the bit value at \<open>i\<close>; the rank index is a precomputed cache of
  those counts.  Reading a word outside \<open>Words\<close> panics.
\<close>

definition Rank64 :: "u64 list \<Rightarrow> int list \<Rightarrow> int \<Rightarrow> (int \<times> int) res" where
  "Rank64 words rindex i =
     (if 0 \<le> i \<and> nat (drop_bit 6 i) < length words
      then Inr (int32 (rank_before words (nat i)), if bit_at words (nat i) then 1 else 0)
      else Inl IndexOutOfRange)"

definition Rank128 :: "u64 list \<Rightarrow> int list \<Rightarrow> int \<Rightarrow> (int \<times> int) res" where
  "Rank128 words rindex i =
     (if 0 \<le> i \<and> nat (drop_bit 6 i) < length words
      then Inr (int32 (rank_before words (nat i)), if bit_at words (nat i) then 1 else 0)
      else Inl IndexOutOfRange)"

text \<open>
  Modelled from the spec: \<open>bitmap.Select32R64\<close>, of the same package.  The positions
  bitmap marks run starts, and select of \<open>k\<close> returns the \<open>k\<close>-th and the \<open>(k+1)\<close>-th start.
\<close>

definition ones_positions :: "u64 list \<Rightarrow> nat list" where
  "ones_positions ws = filter (bit_at ws) [0..<64 * length ws]"

definition Select32R64 :: "u64 list \<Rightarrow> int list \<Rightarrow> int list \<Rightarrow> int \<Rightarrow> (int \<times> int) res" where
  "Select32R64 words sindex rindex k =
     (let ps = ones_positions words in
      if 0 \<le> k \<and> nat k + 1 < length ps
      then Inr (int32 (int (ps ! nat k)), int32 (int (ps ! (nat k + 1))))
      else Inl IndexOutOfRange)"

text \<open>
  Modelled from the spec: \<open>decStep\<close> is not in the sources.  It reads the little-endian
  16-bit length of the "length only" prefix form from the first two bytes.
\<close>

definition decStep :: "byte list \<Rightarrow> int res" where
  "decStep buf =
     ebind (at buf 0) (\<lambda>b0. ebind (at buf 1) (\<lambda>b1. Inr (uint b0 + 256 * uint b1)))"

text \<open>\<open>bytes.Compare\<close>: lexicographic order of byte strings, \<open>-1\<close>, \<open>0\<close> or \<open>1\<close>.\<close>

fun bytes_Compare :: "byte list \<Rightarrow> byte list \<Rightarrow> int" where
  "bytes_Compare [] [] = 0"
| "bytes_Compare [] (y # ys) = - 1"
| "bytes_Compare (x # xs) [] = 1"
| "bytes_Compare (x # xs) (y # ys) =
     (if x < y then - 1 else if y < x then 1 else bytes_Compare xs ys)"

section \<open>The node decoder\<close>

definition getLeafIndex :: "'v SlimTrie \<Rightarrow> int \<Rightarrow> (int \<times> int) res" where
  "getLeafIndex st nodeid =
     ebind (deref (NodeTypeBM (inner st))) (\<lambda>nt.
     ebind (Rank64 (Words nt) (RankIndex nt) nodeid) (\<lambda>(r, ith).
     Inr (int32 (nodeid - r), ith)))"

definition getLeafPrefix :: "'v SlimTrie \<Rightarrow> int \<Rightarrow> querySession \<Rightarrow> querySession res" where
  "getLeafPrefix st nodeid qr =
     ebind (getLeafIndex st nodeid) (\<lambda>(il, _).
     let qr = qr\<lparr>ithLeaf := il, hasLeafPrefix := False\<rparr> in
     case LeafPrefixes (inner st) of
       None \<Rightarrow> Inr qr
     | Some lp \<Rightarrow>
         let wordI = drop_bit 6 (ithLeaf qr); bitI = ithLeaf qr AND 63 in
         ebind (deref (PresenceBM lp)) (\<lambda>pb.
         ebind (at (Words pb) wordI) (\<lambda>w.
         ebind (Bit bitI) (\<lambda>b.
         if w AND b \<noteq> 0 then
           ebind (at (RankIndex pb) wordI) (\<lambda>r.
           ebind (Mask bitI) (\<lambda>m.
           let ithPref = int32 (r + OnesCount64 (w AND m)) in
           ebind (deref (PositionBM lp)) (\<lambda>ps.
           ebind (Select32R64 (Words ps) (SelectIndex ps) (RankIndex ps) ithPref) (\<lambda>(from, to).
           ebind (slice (Bytes lp) from to) (\<lambda>pref.
           Inr (qr\<lparr>hasLeafPrefix := True, leafPrefix := pref\<rparr>))))))
         else Inr qr))))"

text \<open>
  \<open>getNode\<close> is given in four parts: \<open>getShortBM\<close>, \<open>getInnerRange\<close> and
  \<open>getInnerPrefix\<close> are the three blocks of its body.

  The bitmap of a short node: \<open>ShortSize\<close> bits of \<open>Inners.Words\<close> from bit \<open>from\<close>, read
  from one word or from two, then expanded through \<open>ShortTable\<close>.
\<close>

definition getShortBM :: "'v SlimTrie \<Rightarrow> Bitmap \<Rightarrow> int \<Rightarrow> int \<Rightarrow> u64 res" where
  "getShortBM st inn from to =
     (let ns = inner st; j = from AND 63 in
      ebind (at (Words inn) (drop_bit 6 from)) (\<lambda>w.
      ebind (if j \<le> int32 (64 - ShortSize ns)
             then Inr (drop_bit (nat j) w AND ShortMask (vars st))
             else ebind (at (Words inn) (drop_bit 6 to)) (\<lambda>w2.
                  Inr (drop_bit (nat j) w OR
                       (push_bit (nat (int32 (64 - j))) w2 AND ShortMask (vars st))))) (\<lambda>b.
      ebind (at (ShortTable ns) (uint b)) (\<lambda>e. Inr (ucast e)))))"

text \<open>The prefix of an inner node, stored in full or as a length.\<close>

definition getInnerPrefix ::
  "bitstr \<Rightarrow> 'v SlimTrie \<Rightarrow> querySession \<Rightarrow> querySession res" where
  "getInnerPrefix lib st qr =
     (let innWordI = drop_bit 6 (ithInner qr); innBitI = ithInner qr AND 63 in
      ebind (deref (InnerPrefixes (inner st))) (\<lambda>ips.
      if EltCnt ips > 0 then
        ebind (deref (PresenceBM ips)) (\<lambda>inn.
        ebind (at (Words inn) innWordI) (\<lambda>w.
        ebind (Bit innBitI) (\<lambda>b.
        if w AND b \<noteq> 0 then
          ebind (Rank128 (Words inn) (RankIndex inn) (ithInner qr)) (\<lambda>(ithPref, _).
          case PositionBM ips of
            Some ps \<Rightarrow>
              ebind (Select32R64 (Words ps) (SelectIndex ps) (RankIndex ps) ithPref) (\<lambda>(from, to).
              ebind (slice (Bytes ips) from to) (\<lambda>pref.
              ebind (Len lib pref) (\<lambda>n.
              Inr (qr\<lparr>innerPrefix := pref, innerPrefixLen := n, hasInnerPrefix := True\<rparr>))))
          | None \<Rightarrow>
              ebind (slice_from (Bytes ips) (int32 (2 * ithPref))) (\<lambda>buf.
              ebind (decStep buf) (\<lambda>n. Inr (qr\<lparr>innerPrefixLen := n\<rparr>))))
        else Inr qr)))
      else Inr qr))"

text \<open>
  The bit range \<open>[from, to)\<close> of an inner node in \<open>Inners.Words\<close> and its word size: a big
  node, or a normal or short one.
\<close>

definition getInnerRange :: "'v SlimTrie \<Rightarrow> querySession \<Rightarrow> querySession res" where
  "getInnerRange st qr =
     (let ns = inner st; vs = vars st in
      if ithInner qr < BigInnerCnt ns then
        (let from = int32 (ithInner qr * bigInnerSize) in
         Inr (qr\<lparr>wordSize := bigWordSize, qr_from := from,
                 qr_to := int32 (from + bigInnerSize)\<rparr>))
      else
        ebind (deref (ShortBM ns)) (\<lambda>sb.
        ebind (Rank64 (Words sb) (RankIndex sb) (ithInner qr)) (\<lambda>(ithShort, isShort).
        let from = int32 (BigInnerOffset vs + innerSize * ithInner qr
                          + ShortMinusInner vs * ithShort);
            qr = qr\<lparr>wordSize := wordSize4, qr_from := from\<rparr> in
        if isShort \<noteq> 0 then
          (let to = int32 (from + ShortSize ns) in
           ebind (deref (Inners ns)) (\<lambda>inn.
           ebind (getShortBM st inn from to) (\<lambda>b.
           Inr (qr\<lparr>qr_to := to, bm := b\<rparr>))))
        else Inr (qr\<lparr>qr_to := int32 (from + innerSize)\<rparr>))))"

definition getNode :: "bitstr \<Rightarrow> 'v SlimTrie \<Rightarrow> int \<Rightarrow> querySession \<Rightarrow> querySession res" where
  "getNode lib st nodeId qr0 =
     (let qr = qr0\<lparr>innerPrefixLen := 0, hasInnerPrefix := False\<rparr> in
      ebind (deref (NodeTypeBM (inner st))) (\<lambda>nt.
      ebind (Rank64 (Words nt) (RankIndex nt) nodeId) (\<lambda>(ii, isIn).
      let qr = qr\<lparr>ithInner := ii, isInner := isIn\<rparr> in
      if isInner qr = 0 then getLeafPrefix st nodeId qr
      else ebind (getInnerRange st qr) (getInnerPrefix lib st))))"

section \<open>Labels and children\<close>

definition getLabelIdxOfKey :: "querySession \<Rightarrow> int \<Rightarrow> int res" where
  "getLabelIdxOfKey qr keyBitIdx =
     (if keyBitIdx < keyBitLen qr then
        (if wordSize qr = bigWordSize then
           ebind (at (key qr) (drop_bit 3 keyBitIdx)) (\<lambda>b. Inr (int32 (1 + uint b)))
         else
           ebind (at (key qr) (drop_bit 3 keyBitIdx)) (\<lambda>b.
           let b = (if keyBitIdx AND 7 < 4 then drop_bit 4 b else b);
               b = b AND 0xf
           in Inr (int32 (1 + uint b))))
      else Inr 0)"

definition getLeftChildID :: "'v SlimTrie \<Rightarrow> querySession \<Rightarrow> int \<Rightarrow> (int \<times> int) res" where
  "getLeftChildID st qr keyBitIdx =
     (let ns = inner st in
      ebind (getLabelIdxOfKey qr keyBitIdx) (\<lambda>ithBit.
      ebind (deref (Inners ns)) (\<lambda>inn.
      if int32 (qr_to qr - qr_from qr) = ShortSize ns then
        ebind (Rank128 (Words inn) (RankIndex inn) (qr_from qr)) (\<lambda>(r0, _).
        ebind (Mask ithBit) (\<lambda>m.
        Inr (int32 (r0 + OnesCount64 (bm qr AND m)),
             uint (drop_bit (nat ithBit) (bm qr) AND 1))))
      else Rank128 (Words inn) (RankIndex inn) (int32 (qr_from qr + ithBit)))))"

section \<open>Leaves\<close>

text \<open>
  Modelled from the spec: \<open>Leaves.get\<close> is not in the sources.  A leaf value is the
  \<open>FixedSize\<close> bytes of the leaf byte pool at \<open>ith * FixedSize\<close>, as \<open>getIthLeafBytes\<close>
  reads them.
\<close>

definition leaves_get :: "VLenArray \<Rightarrow> int \<Rightarrow> byte list res" where
  "leaves_get ls ith =
     (let idx = int32 (ith * FixedSize ls) in slice (Bytes ls) idx (int32 (idx + FixedSize ls)))"

definition getIthLeaf :: "'v SlimTrie \<Rightarrow> int \<Rightarrow> 'v option res" where
  "getIthLeaf st ith =
     (case Leaves (inner st) of
        None \<Rightarrow> Inr None
      | Some ls \<Rightarrow> ebind (leaves_get ls ith) (\<lambda>bs. Inr (encoder_Decode st bs)))"

definition getLeaf :: "'v SlimTrie \<Rightarrow> int \<Rightarrow> 'v option res" where
  "getLeaf st nodeid =
     ebind (getLeafIndex st nodeid) (\<lambda>(leafI, nodeType).
     if nodeType = 1 then Inl Impossible else getIthLeaf st leafI)"

section \<open>Exact lookup\<close>

text \<open>
  One pass of a \<open>for\<close> loop ends in one of three ways: the next pass starts
  (\<open>Continue\<close>), the loop is left by \<open>break\<close>, or the function returns.
\<close>

datatype 's flow = Continue 's | Break 's | Return int

text \<open>The body of the loop of \<open>GetID\<close>, on the locals \<open>(eqID, i, qr)\<close>.\<close>

definition GetID_body ::
  "bitstr \<Rightarrow> 'v SlimTrie \<Rightarrow> byte list \<Rightarrow> int \<Rightarrow> int \<times> int \<times> querySession \<Rightarrow>
   (int \<times> int \<times> querySession) flow res" where
  "GetID_body lib st k l s =
     (case s of (eqID, i, qr0) \<Rightarrow>
      ebind (getNode lib st eqID qr0) (\<lambda>qr.
      if isInner qr = 0 then Inr (Break (eqID, i, qr))
      else
        ebind
          (if hasInnerPrefix qr then
             ebind (slice_from k (drop_bit 3 i)) (\<lambda>tail.
             ebind (StrCmpUpto lib tail (innerPrefix qr)) (\<lambda>r.
             if r \<noteq> 0 then Inr None
             else Inr (Some (int32 ((i AND NOT 7) + innerPrefixLen qr)))))
           else Inr (Some (int32 (i + innerPrefixLen qr))))
          (\<lambda>oi. case oi of
             None \<Rightarrow> Inr (Return (- 1))
           | Some i \<Rightarrow>
               if i > l then Inr (Return (- 1))
               else
                 ebind (getLeftChildID st qr i) (\<lambda>(lchID, has).
                 if has = 0 then Inr (Return (- 1))
                 else
                   (let eqID = int32 (lchID + 1) in
                    if i = l then Inr (Break (eqID, i, qr))
                    else Inr (Continue (eqID, int32 (i + wordSize qr), qr)))))))"

fun GetID_loop ::
  "nat \<Rightarrow> bitstr \<Rightarrow> 'v SlimTrie \<Rightarrow> byte list \<Rightarrow> int \<Rightarrow> int \<times> int \<times> querySession \<Rightarrow>
   (int \<times> int \<times> querySession) flow res" where
  "GetID_loop 0 lib st k l s = Inl OutOfFuel"
| "GetID_loop (Suc n) lib st k l s =
     (case GetID_body lib st k l s of
        Inl e \<Rightarrow> Inl e
      | Inr (Continue s') \<Rightarrow> GetID_loop n lib st k l s'
      | Inr (Break s') \<Rightarrow> Inr (Break s')
      | Inr (Return r) \<Rightarrow> Inr (Return r))"

text \<open>The code of \<open>GetID\<close> after the loop.\<close>

definition GetID_after ::
  "'v SlimTrie \<Rightarrow> byte list \<Rightarrow> int \<Rightarrow> int \<times> int \<times> querySession \<Rightarrow> int res" where
  "GetID_after st k l s =
     (case s of (eqID, i, qr) \<Rightarrow>
      if LeafPrefixes (inner st) \<noteq> None then
        (if i = l then
           (if hasLeafPrefix qr then Inr (- 1) else Inr eqID)
         else
           (if \<not> hasLeafPrefix qr then Inr (- 1)
            else
              ebind (slice_from k (drop_bit 3 i)) (\<lambda>tail.
              if leafPrefix qr \<noteq> tail then Inr (- 1) else Inr eqID)))
      else Inr eqID)"

definition GetID :: "nat \<Rightarrow> bitstr \<Rightarrow> 'v SlimTrie \<Rightarrow> byte list \<Rightarrow> int res" where
  "GetID n lib st k =
     (if NodeTypeBM (inner st) = None then Inr (- 1)
      else
        (let l = int32 (8 * int (length k));
             qr = querySession0\<lparr>keyBitLen := l, key := k\<rparr>
         in
         ebind (GetID_loop n lib st k l (0, 0, qr)) (\<lambda>f.
         case f of
           Return r \<Rightarrow> Inr r
         | Break s \<Rightarrow> GetID_after st k l s
         | Continue s \<Rightarrow> Inl OutOfFuel)))"

definition Get :: "nat \<Rightarrow> bitstr \<Rightarrow> 'v SlimTrie \<Rightarrow> byte list \<Rightarrow> ('v option \<times> bool) res" where
  "Get n lib st k =
     ebind (GetID n lib st k) (\<lambda>eqID.
     if eqID = - 1 then Inr (None, False)
     else ebind (getLeaf st eqID) (\<lambda>v. Inr (v, True)))"

section \<open>Three-way search\<close>

definition cmpLeafPrefix :: "'v SlimTrie \<Rightarrow> byte list \<Rightarrow> querySession \<Rightarrow> int" where
  "cmpLeafPrefix st tail qr =
     (if LeafPrefixes (inner st) \<noteq> None then
        (let leafPrefix = (if hasLeafPrefix qr then leafPrefix qr else [])
         in int32 (bytes_Compare tail leafPrefix))
      else 0)"

fun leftMost_loop ::
  "nat \<Rightarrow> bitstr \<Rightarrow> 'v SlimTrie \<Rightarrow> int \<Rightarrow> int list option \<Rightarrow> querySession \<Rightarrow>
   (int \<times> int list option) res" where
  "leftMost_loop 0 lib st idx path qr = Inl OutOfFuel"
| "leftMost_loop (Suc n) lib st idx path qr0 =
     (let path = map_option (\<lambda>p. p @ [idx]) path in
      case getNode lib st idx qr0 of
        Inl e \<Rightarrow> Inl e
      | Inr qr \<Rightarrow>
          if isInner qr = 0 then Inr (idx, path)
          else
            (case ebind (deref (Inners (inner st))) (\<lambda>inn.
                    Rank128 (Words inn) (RankIndex inn) (qr_from qr)) of
               Inl e \<Rightarrow> Inl e
             | Inr (r0, _) \<Rightarrow> leftMost_loop n lib st (int32 (r0 + 1)) path qr))"

definition leftMost ::
  "nat \<Rightarrow> bitstr \<Rightarrow> 'v SlimTrie \<Rightarrow> int \<Rightarrow> int list option \<Rightarrow> (int \<times> int list option) res" where
  "leftMost n lib st idx path = leftMost_loop n lib st idx path querySession0"

fun rightMost :: "nat \<Rightarrow> bitstr \<Rightarrow> 'v SlimTrie \<Rightarrow> int \<Rightarrow> int res" where
  "rightMost 0 lib st idx = Inl OutOfFuel"
| "rightMost (Suc n) lib st idx =
     (case getNode lib st idx querySession0 of
        Inl e \<Rightarrow> Inl e
      | Inr qr \<Rightarrow>
          if isInner qr = 0 then Inr idx
          else
            (case ebind (deref (Inners (inner st))) (\<lambda>inn.
                    Rank128 (Words inn) (RankIndex inn) (int32 (qr_to qr - 1))) of
               Inl e \<Rightarrow> Inl e
             | Inr (r0, b) \<Rightarrow> rightMost n lib st (int32 (r0 + b))))"

text \<open>
  The loop of \<open>searchID\<close> works on the locals \<open>(lID, eqID, rID, i, qr)\<close>.  One pass
  decodes the node, handles its prefix (\<open>searchID_prefix\<close>: either the loop is left with
  the state \<open>Inl\<close>, or the cursor moves on to \<open>Inr\<close>), then picks the child
  (\<open>searchID_child\<close>).  There is no \<open>return\<close> inside this loop.
\<close>

type_synonym search_state = "int \<times> int \<times> int \<times> int \<times> querySession"

definition searchID_prefix ::
  "bitstr \<Rightarrow> byte list \<Rightarrow> int \<Rightarrow> search_state \<Rightarrow> (search_state + int) res" where
  "searchID_prefix lib k l s =
     (case s of (lID, eqID, rID, i, qr) \<Rightarrow>
      if hasInnerPrefix qr then
        ebind (slice_from k (drop_bit 3 i)) (\<lambda>tail.
        ebind (StrCmpUpto lib tail (innerPrefix qr)) (\<lambda>r.
        if r = 0 then Inr (Inr (int32 ((i AND NOT 7) + innerPrefixLen qr)))
        else if r < 0 then Inr (Inl (lID, - 1, eqID, i, qr))
        else Inr (Inl (eqID, - 1, rID, i, qr))))
      else
        (let i = int32 (i + innerPrefixLen qr) in
         if i > l then Inr (Inl (lID, - 1, eqID, i, qr)) else Inr (Inr i)))"

definition searchID_child ::
  "'v SlimTrie \<Rightarrow> int \<Rightarrow> search_state \<Rightarrow> search_state flow res" where
  "searchID_child st l s =
     (case s of (lID, eqID, rID, i, qr) \<Rightarrow>
      ebind (getLeftChildID st qr i) (\<lambda>(leftChild, has).
      let chID = int32 (leftChild + has);
          rightChild = int32 (chID + 1)
      in
      ebind (deref (Inners (inner st))) (\<lambda>inn.
      ebind (Rank128 (Words inn) (RankIndex inn) (qr_from qr)) (\<lambda>(lm, _).
      ebind (Rank128 (Words inn) (RankIndex inn) (int32 (qr_to qr - 1))) (\<lambda>(rm, b).
      let leftMostChild = int32 (lm + 1);
          rightMostChild = int32 (rm + b);
          lID = (if leftChild \<ge> leftMostChild \<and> leftChild \<le> rightMostChild
                 then leftChild else lID);
          rID = (if rightChild \<ge> leftMostChild \<and> rightChild \<le> rightMostChild
                 then rightChild else rID)
      in
      if has = 0 then Inr (Break (lID, - 1, rID, i, qr))
      else if i = l then Inr (Break (lID, chID, rID, i, qr))
      else Inr (Continue (lID, chID, rID, int32 (i + wordSize qr), qr)))))))"

definition searchID_body ::
  "bitstr \<Rightarrow> 'v SlimTrie \<Rightarrow> byte list \<Rightarrow> int \<Rightarrow> search_state \<Rightarrow> search_state flow res" where
  "searchID_body lib st k l s =
     (case s of (lID, eqID, rID, i, qr0) \<Rightarrow>
      ebind (getNode lib st eqID qr0) (\<lambda>qr.
      if isInner qr = 0 then Inr (Break (lID, eqID, rID, i, qr))
      else
        ebind (searchID_prefix lib k l (lID, eqID, rID, i, qr)) (\<lambda>x.
        case x of
          Inl b \<Rightarrow> Inr (Break b)
        | Inr i \<Rightarrow> searchID_child st l (lID, eqID, rID, i, qr))))"

fun searchID_loop ::
  "nat \<Rightarrow> bitstr \<Rightarrow> 'v SlimTrie \<Rightarrow> byte list \<Rightarrow> int \<Rightarrow> search_state \<Rightarrow> search_state res" where
  "searchID_loop 0 lib st k l s = Inl OutOfFuel"
| "searchID_loop (Suc n) lib st k l s =
     (case searchID_body lib st k l s of
        Inl e \<Rightarrow> Inl e
      | Inr (Continue s') \<Rightarrow> searchID_loop n lib st k l s'
      | Inr (Break s') \<Rightarrow> Inr s'
      | Inr (Return r) \<Rightarrow> Inr s)"

text \<open>The code of \<open>searchID\<close> after the loop, up to the two drill-downs.\<close>

definition searchID_after ::
  "'v SlimTrie \<Rightarrow> byte list \<Rightarrow> int \<Rightarrow> search_state \<Rightarrow> (int \<times> int \<times> int) res" where
  "searchID_after st k l s =
     (case s of (lID, eqID, rID, i, qr) \<Rightarrow>
      if eqID \<noteq> - 1 \<and> i \<le> l then
        ebind (slice_from k (drop_bit 3 i)) (\<lambda>tail.
        let r = cmpLeafPrefix st tail qr in
        if r = - 1 then Inr (lID, - 1, eqID)
        else if r = 1 then Inr (eqID, - 1, rID)
        else Inr (lID, eqID, rID))
      else Inr (lID, eqID, rID))"

definition searchID ::
  "nat \<Rightarrow> bitstr \<Rightarrow> 'v SlimTrie \<Rightarrow> byte list \<Rightarrow> (int \<times> int \<times> int) res" where
  "searchID n lib st k =
     (if NodeTypeBM (inner st) = None then Inr (- 1, - 1, - 1)
      else
        (let l = int32 (8 * int (length k));
             qr = querySession0\<lparr>keyBitLen := l, key := k\<rparr>
         in
         ebind (searchID_loop n lib st k l (- 1, 0, - 1, 0, qr)) (\<lambda>s.
         ebind (searchID_after st k l s) (\<lambda>(lID, eqID, rID).
         ebind (if lID \<noteq> - 1 then rightMost n lib st lID else Inr lID) (\<lambda>lID.
         ebind (if rID \<noteq> - 1 then ebind (leftMost n lib st rID None) (\<lambda>(x, _). Inr x)
                else Inr rID) (\<lambda>rID.
         Inr (lID, eqID, rID)))))))"

definition RangeGet ::
  "nat \<Rightarrow> bitstr \<Rightarrow> 'v SlimTrie \<Rightarrow> byte list \<Rightarrow> ('v option \<times> bool) res" where
  "RangeGet n lib st k =
     ebind (searchID n lib st k) (\<lambda>(lID, eqID, rID).
     if eqID \<noteq> - 1 then ebind (getLeaf st eqID) (\<lambda>v. Inr (v, True))
     else if lID = - 1 then Inr (None, False)
     else ebind (getLeaf st lID) (\<lambda>v. Inr (v, True)))"

definition Search ::
  "nat \<Rightarrow> bitstr \<Rightarrow> 'v SlimTrie \<Rightarrow> byte list \<Rightarrow> ('v option \<times> 'v option \<times> 'v option) res" where
  "Search n lib st k =
     ebind (searchID n lib st k) (\<lambda>(lID, eqID, rID).
     ebind (if lID \<noteq> - 1 then getLeaf st lID else Inr None) (\<lambda>lVal.
     ebind (if eqID \<noteq> - 1 then getLeaf st eqID else Inr None) (\<lambda>eqVal.
     ebind (if rID \<noteq> - 1 then getLeaf st rID else Inr None) (\<lambda>rVal.
     Inr (lVal, eqVal, rVal)))))"

section \<open>Concrete instances\<close>

text \<open>
  A byte-granular instance of package \<open>bitstr\<close>, used to run the model on concrete
  tries: the last byte of a stored prefix is its trailing marker, the bytes before it are
  the prefix, and the comparison looks at as many key bytes as the prefix has.
\<close>

definition bitstr_bytes :: bitstr where
  "bitstr_bytes =
     \<lparr>Len = (\<lambda>p. if p = [] then Inl IndexOutOfRange else Inr (8 * (int (length p) - 1))),
      StrCmpUpto = (\<lambda>a p. if p = [] then Inl IndexOutOfRange
                           else Inr (bytes_Compare (take (length p - 1) a) (butlast p)))\<rparr>"

definition no_vars :: slimVars where
  "no_vars = \<lparr>BigInnerOffset = 0, ShortMinusInner = 0, ShortMask = 0\<rparr>"

text \<open>The empty trie: \<open>&Slim{}\<close>, every pointer nil.\<close>

definition empty_trie :: "(byte list) SlimTrie" where
  "empty_trie =
     \<lparr>inner = \<lparr>BigInnerCnt = 0, ShortSize = 0, ShortTable = [], NodeTypeBM = None,
                Inners = None, ShortBM = None, InnerPrefixes = None, LeafPrefixes = None,
                Leaves = None\<rparr>,
      vars = no_vars, encoder_Decode = Some\<rparr>"

text \<open>
  A trie of the two keys \<open>0x10\<close> and \<open>0x20\<close> with the values \<open>7\<close> and \<open>9\<close>: the root
  (node 0) is a normal inner node with the labels 1 and 2 (bits 2 and 3 of its bitmap),
  nodes 1 and 2 are the leaves.  No prefixes, no short and no big nodes.
\<close>

definition two_keys :: "(byte list) SlimTrie" where
  "two_keys =
     \<lparr>inner = \<lparr>BigInnerCnt = 0, ShortSize = 8, ShortTable = [],
                NodeTypeBM = Some \<lparr>Words = [1], RankIndex = [0], SelectIndex = []\<rparr>,
                Inners = Some \<lparr>Words = [12], RankIndex = [0, 2], SelectIndex = []\<rparr>,
                ShortBM = Some \<lparr>Words = [0], RankIndex = [0], SelectIndex = []\<rparr>,
                InnerPrefixes =
                  Some \<lparr>EltCnt = 0,
                        PresenceBM = Some \<lparr>Words = [0], RankIndex = [0], SelectIndex = []\<rparr>,
                        PositionBM = None, FixedSize = 0, Bytes = []\<rparr>,
                LeafPrefixes = None,
                Leaves =
                  Some \<lparr>EltCnt = 2,
                        PresenceBM = Some \<lparr>Words = [3], RankIndex = [0], SelectIndex = []\<rparr>,
                        PositionBM = None, FixedSize = 1, Bytes = [7, 9]\<rparr>\<rparr>,
      vars = \<lparr>BigInnerOffset = 0, ShortMinusInner = - 9, ShortMask = 255\<rparr>,
      encoder_Decode = Some\<rparr>"

text \<open>A query session on the key \<open>0x61 0x7c\<close>, at a 4-bit node.\<close>

definition session_61 :: querySession where
  "session_61 = querySession0\<lparr>keyBitLen := 16, key := [0x61, 0x7c], wordSize := 4\<rparr>"



text \<open>The query session \<open>GetID\<close> and \<open>searchID\<close> start from, and the decoded roots.\<close>

definition session_of :: "byte list \<Rightarrow> querySession" where
  "session_of k = querySession0\<lparr>keyBitLen := int32 (8 * int (length k)), key := k\<rparr>"

definition two_keys_root :: "byte list \<Rightarrow> querySession" where
  "two_keys_root k = (session_of k)\<lparr>wordSize := 4, qr_to := 17, isInner := 1\<rparr>"



definition two_keys_inners :: Bitmap where
  "two_keys_inners = \<lparr>Words = [12], RankIndex = [0, 2], SelectIndex = []\<rparr>"

text \<open>
  Modelled from the spec's words, for comparison with \<open>getShortBM\<close>: the \<open>n\<close>-bit field
  of a word stream starting at bit \<open>p\<close>.  Bit \<open>k\<close> of the field is bit \<open>p + k\<close> of the
  stream.
\<close>

definition bit_field :: "u64 list \<Rightarrow> nat \<Rightarrow> nat \<Rightarrow> u64" where
  "bit_field ws p n = horner_sum of_bool 2 (map (\<lambda>k. bit_at ws (p + k)) [0..<n])"

text \<open>
  The two-key trie with its root stored short: \<open>ShortSize\<close> is 2, the code \<open>3\<close> of the
  root lies in bits 63 and 64 of \<open>Inners.Words\<close>, across the word boundary, and
  \<open>ShortTable\<close> expands it to the bitmap with bits 2 and 3.
\<close>

definition short_trie :: "(byte list) SlimTrie" where
  "short_trie =
     \<lparr>inner = (inner two_keys)\<lparr>ShortSize := 2, ShortTable := [0, 0, 0, 12],
                Inners := Some \<lparr>Words = [0x8000000000000000, 1], RankIndex = [0, 2], SelectIndex = []\<rparr>,
                ShortBM := Some \<lparr>Words = [1], RankIndex = [0], SelectIndex = []\<rparr>\<rparr>,
      vars = \<lparr>BigInnerOffset = 63, ShortMinusInner = - 15, ShortMask = 3\<rparr>,
      encoder_Decode = Some\<rparr>"

definition short_root :: "byte list \<Rightarrow> querySession" where
  "short_root k =
     (session_of k)\<lparr>wordSize := 4, qr_from := 63, qr_to := 65, bm := 12, isInner := 1\<rparr>"

definition short_inners :: Bitmap where
  "short_inners = \<lparr>Words = [0x8000000000000000, 1], RankIndex = [0, 2], SelectIndex = []\<rparr>"

definition short_bm :: Bitmap where
  "short_bm = \<lparr>Words = [1], RankIndex = [0], SelectIndex = []\<rparr>"

text \<open>What a node decode leaves untouched when it reads an inner prefix.\<close>

definition same_node :: "querySession \<Rightarrow> querySession \<Rightarrow> bool" where
  "same_node q q' \<longleftrightarrow>
     qr_from q' = qr_from q \<and> qr_to q' = qr_to q \<and> bm q' = bm q \<and>
     isInner q' = isInner q \<and> ithInner q' = ithInner q \<and> wordSize q' = wordSize q \<and>
     key q' = key q \<and> keyBitLen q' = keyBitLen q \<and> ithLeaf q' = ithLeaf q \<and>
     hasLeafPrefix q' = hasLeafPrefix q \<and> leafPrefix q' = leafPrefix q"





text \<open>
  What the query code relies on from package \<open>bitstr\<close>: a bit length is a non-negative
  \<open>int32\<close>, and a key tail that compares equal to a prefix is at least as long as it.
\<close>

definition bitstr_ok :: "bitstr \<Rightarrow> bool" where
  "bitstr_ok lib \<longleftrightarrow>
     (\<forall>p n. Len lib p = Inr n \<longrightarrow> 0 \<le> n \<and> n < 2147483648) \<and>
     (\<forall>t p n. StrCmpUpto lib t p = Inr 0 \<longrightarrow> Len lib p = Inr n \<longrightarrow> n \<le> 8 * int (length t))"

text \<open>The positions of the leaf prefixes are below \<open>2^31\<close>, so that select does not wrap.\<close>

definition leaf_positions_fit :: "'v SlimTrie \<Rightarrow> bool" where
  "leaf_positions_fit st \<longleftrightarrow>
     (\<forall>lp ps. LeafPrefixes (inner st) = Some lp \<longrightarrow> PositionBM lp = Some ps \<longrightarrow>
        64 * int (length (Words ps)) \<le> 2147483648)"

section \<open>Auxiliary facts\<close>

lemma int32_id: "- 2147483648 \<le> x \<Longrightarrow> x < 2147483648 \<Longrightarrow> int32 x = x"
  by (simp add: int32_def)

lemma and_low_bits: "(x::int) AND (2 ^ n - 1) = x mod 2 ^ n"
  by (metis take_bit_eq_mask take_bit_eq_mod mask_eq_exp_minus_1)

lemma and_not_low_bits: "(x::int) AND NOT (2 ^ n - 1) = x - x mod 2 ^ n"
proof -
  have "x AND NOT (mask n) = push_bit n (drop_bit n x)"
    by (rule bit_eqI) (auto simp add: bit_simps)
  also have "\<dots> = x - take_bit n x"
    using bits_ident [of n x] by simp
  finally show ?thesis
    by (simp add: mask_eq_exp_minus_1 take_bit_eq_mod)
qed

lemma and_7: "(i::int) AND 7 = i mod 8"
  using and_low_bits [of i 3] by simp

lemma and_63: "(i::int) AND 63 = i mod 64"
  using and_low_bits [of i 6] by simp

lemma and_not_7: "(i::int) AND NOT 7 = i - i mod 8"
  using and_not_low_bits [of i 3] by simp

lemma drop_bit_3: "drop_bit 3 (i::int) = i div 8"
  by (simp add: drop_bit_int_def)

lemma drop_bit_6: "drop_bit 6 (i::int) = i div 64"
  by (simp add: drop_bit_int_def)

lemma uint_lo_nibble: "uint ((b :: byte) AND 0xf) = uint b mod 16"
  using and_low_bits [of "uint b" 4] by (simp add: uint_and)

lemma div16_small: "0 \<le> (x::int) \<Longrightarrow> x < 256 \<Longrightarrow> x div 16 mod 16 = x div 16"
  by simp

lemma uint_hi_nibble: "uint (drop_bit 4 (b :: byte) AND 0xf) = uint b div 16"
proof -
  have "uint (drop_bit 4 b) = uint b div 16"
    by (simp add: drop_bit_eq_div uint_div)
  moreover have "uint b < 256" using uint_bounded [of b] by simp
  ultimately show ?thesis
    by (simp add: uint_lo_nibble [of "drop_bit 4 b"] div16_small)
qed

lemma at_key_byte:
  assumes "0 \<le> i" and "i < 8 * int (length ks)"
  shows "at ks (drop_bit 3 i) = Inr (ks ! nat (i div 8))"
proof -
  have "nat (i div 8) < length ks" using assms by linarith
  moreover have "0 \<le> i div 8" using assms(1) by simp
  ultimately show ?thesis by (simp add: at_def drop_bit_3)
qed

lemma label_int32: "int32 (1 + uint (b :: byte)) = 1 + uint b"
proof -
  have "uint b < 256" using uint_bounded [of b] by simp
  then show ?thesis by (simp add: int32_id)
qed

text \<open>Runs of the model on the two-key trie.\<close>

lemma two_keys_search_eq: "searchID 3 bitstr_bytes two_keys [0x10] = Inr (- 1, 1, 2)"
  by code_simp

lemma two_keys_search_gt: "searchID 3 bitstr_bytes two_keys [0x30] = Inr (2, - 1, - 1)"
  by code_simp

lemma two_keys_search_lt: "searchID 3 bitstr_bytes two_keys [0x00] = Inr (- 1, - 1, 1)"
  by code_simp

lemma two_keys_leaf1: "getLeaf two_keys 1 = Inr (Some [7])"
  by code_simp

lemma two_keys_leaf2: "getLeaf two_keys 2 = Inr (Some [9])"
  by code_simp

section \<open>The empty trie\<close>

text \<open>
  C7.  On an empty instance (\<open>NodeTypeBM\<close> is nil), for every key and whatever the fuel:
  \<open>GetID\<close> returns \<open>-1\<close>, \<open>Get\<close> returns \<open>(nil, false)\<close>, \<open>searchID\<close> returns
  \<open>(-1, -1, -1)\<close>, \<open>Search\<close> returns \<open>(nil, nil, nil)\<close> and \<open>RangeGet\<close> returns
  \<open>(nil, false)\<close>.
\<close>

theorem empty_trie_not_found:
  assumes "NodeTypeBM (inner st) = None"
  shows "GetID n lib st k = Inr (- 1) \<and>
         Get n lib st k = Inr (None, False) \<and>
         searchID n lib st k = Inr (- 1, - 1, - 1) \<and>
         Search n lib st k = Inr (None, None, None) \<and>
         RangeGet n lib st k = Inr (None, False)"
proof -
  have g: "GetID n lib st k = Inr (- 1)"
    using assms by (simp add: GetID_def)
  have s: "searchID n lib st k = Inr (- 1, - 1, - 1)"
    using assms by (simp add: searchID_def)
  show ?thesis
    by (simp add: g s Get_def Search_def RangeGet_def ebind_def)
qed

theorem empty_trie_not_found_witness:
  "NodeTypeBM (inner empty_trie) = None \<and>
   GetID 0 bitstr_bytes empty_trie [0x61] = Inr (- 1) \<and>
   Get 0 bitstr_bytes empty_trie [0x61] = Inr (None, False) \<and>
   searchID 0 bitstr_bytes empty_trie [0x61] = Inr (- 1, - 1, - 1) \<and>
   Search 0 bitstr_bytes empty_trie [0x61] = Inr (None, None, None) \<and>
   RangeGet 0 bitstr_bytes empty_trie [0x61] = Inr (None, False)"
proof -
  have h: "NodeTypeBM (inner empty_trie) = None"
    by (simp add: empty_trie_def)
  show ?thesis
    using h empty_trie_not_found [OF h, of 0 bitstr_bytes "[0x61]"] by simp
qed

section \<open>Range lookup\<close>

text \<open>
  C1.  \<open>RangeGet\<close> runs the three-way search.  When the search yields \<open>eqID \<noteq> -1\<close> it
  returns the value at \<open>eqID\<close> and \<open>true\<close>; when \<open>eqID = -1\<close> and \<open>lID \<noteq> -1\<close> it
  returns the value at \<open>lID\<close> and \<open>true\<close>; when both are \<open>-1\<close> it returns
  \<open>(nil, false)\<close>.  The value at a node is what \<open>getLeaf\<close> returns for it (a panic of
  \<open>getLeaf\<close> is a panic of \<open>RangeGet\<close>).
\<close>

theorem RangeGet_cases:
  assumes "searchID n lib st k = Inr (lID, eqID, rID)"
  shows "(eqID \<noteq> - 1 \<longrightarrow>
            RangeGet n lib st k = ebind (getLeaf st eqID) (\<lambda>v. Inr (v, True))) \<and>
         (eqID = - 1 \<and> lID \<noteq> - 1 \<longrightarrow>
            RangeGet n lib st k = ebind (getLeaf st lID) (\<lambda>v. Inr (v, True))) \<and>
         (eqID = - 1 \<and> lID = - 1 \<longrightarrow> RangeGet n lib st k = Inr (None, False))"
  using assms by (simp add: RangeGet_def ebind_def)

theorem RangeGet_cases_witness:
  "searchID 3 bitstr_bytes two_keys [0x10] = Inr (- 1, 1, 2) \<and>
   RangeGet 3 bitstr_bytes two_keys [0x10] = Inr (Some [7], True) \<and>
   searchID 3 bitstr_bytes two_keys [0x30] = Inr (2, - 1, - 1) \<and>
   RangeGet 3 bitstr_bytes two_keys [0x30] = Inr (Some [9], True) \<and>
   searchID 3 bitstr_bytes two_keys [0x00] = Inr (- 1, - 1, 1) \<and>
   RangeGet 3 bitstr_bytes two_keys [0x00] = Inr (None, False)"
  using RangeGet_cases [OF two_keys_search_eq] RangeGet_cases [OF two_keys_search_gt]
    RangeGet_cases [OF two_keys_search_lt]
  by (simp add: two_keys_search_eq two_keys_search_gt two_keys_search_lt
      two_keys_leaf1 two_keys_leaf2 ebind_def)

section \<open>Label extraction\<close>

text \<open>
  C6.  For a key of bit length \<open>keyBitLen\<close> and a bit cursor \<open>i\<close> into it, label
  extraction returns 0 (the terminator branch) when \<open>i\<close> equals the key bit length; at a
  big node (\<open>wordSize = 8\<close>) it returns \<open>1 + key[i>>3]\<close>, the whole next byte; at a 4-bit
  node it returns \<open>1 + nibble\<close>, where the nibble is the high four bits of \<open>key[i>>3]\<close>
  (the byte divided by 16) when \<open>i & 7 < 4\<close> and the low four bits (the byte modulo 16)
  otherwise.
\<close>

theorem getLabelIdxOfKey_cases:
  assumes "keyBitLen qr = 8 * int (length (key qr))" and "0 \<le> i"
  shows "(i = keyBitLen qr \<longrightarrow> getLabelIdxOfKey qr i = Inr 0) \<and>
         (i < keyBitLen qr \<and> wordSize qr = 8 \<longrightarrow>
            getLabelIdxOfKey qr i = Inr (1 + uint (key qr ! nat (i div 8)))) \<and>
         (i < keyBitLen qr \<and> wordSize qr = 4 \<longrightarrow>
            getLabelIdxOfKey qr i =
              Inr (1 + (if i mod 8 < 4 then uint (key qr ! nat (i div 8)) div 16
                        else uint (key qr ! nat (i div 8)) mod 16)))"
proof (intro conjI impI)
  show "getLabelIdxOfKey qr i = Inr 0" if "i = keyBitLen qr"
    using that by (simp add: getLabelIdxOfKey_def)
next
  assume a: "i < keyBitLen qr \<and> wordSize qr = 8"
  then have b: "at (key qr) (drop_bit 3 i) = Inr (key qr ! nat (i div 8))"
    using assms by (simp add: at_key_byte)
  show "getLabelIdxOfKey qr i = Inr (1 + uint (key qr ! nat (i div 8)))"
    using a by (simp add: getLabelIdxOfKey_def b ebind_def label_int32)
next
  assume a: "i < keyBitLen qr \<and> wordSize qr = 4"
  then have b: "at (key qr) (drop_bit 3 i) = Inr (key qr ! nat (i div 8))"
    using assms by (simp add: at_key_byte)
  show "getLabelIdxOfKey qr i =
         Inr (1 + (if i mod 8 < 4 then uint (key qr ! nat (i div 8)) div 16
                   else uint (key qr ! nat (i div 8)) mod 16))"
  proof (cases "i mod 8 < 4")
    case True
    then show ?thesis
      using a by (simp add: getLabelIdxOfKey_def b ebind_def label_int32 and_7 uint_hi_nibble
          del: and_numerals)
  next
    case False
    then show ?thesis
      using a by (simp add: getLabelIdxOfKey_def b ebind_def label_int32 and_7 uint_lo_nibble
          del: and_numerals)
  qed
qed

theorem getLabelIdxOfKey_cases_witness:
  "keyBitLen session_61 = 8 * int (length (key session_61)) \<and>
   getLabelIdxOfKey session_61 16 = Inr 0 \<and>
   getLabelIdxOfKey (session_61\<lparr>wordSize := 8\<rparr>) 8 = Inr 125 \<and>
   getLabelIdxOfKey session_61 0 = Inr 7 \<and>
   getLabelIdxOfKey session_61 4 = Inr 2"
proof -
  have h: "keyBitLen session_61 = 8 * int (length (key session_61))"
    by (simp add: session_61_def querySession0_def)
  have h8: "keyBitLen (session_61\<lparr>wordSize := 8\<rparr>) =
            8 * int (length (key (session_61\<lparr>wordSize := 8\<rparr>)))"
    by (simp add: session_61_def querySession0_def)
  show ?thesis
    using h getLabelIdxOfKey_cases [OF h, of 16] getLabelIdxOfKey_cases [OF h8, of 8]
      getLabelIdxOfKey_cases [OF h, of 0] getLabelIdxOfKey_cases [OF h, of 4]
    by (simp add: session_61_def querySession0_def)
qed




lemma two_keys_node0: "getNode bitstr_bytes two_keys 0 (session_of k) = Inr (two_keys_root k)"
  unfolding session_of_def two_keys_root_def
  by code_simp

lemma int32_add_left: "int32 (int32 a + b) = int32 (a + b)"
proof -
  have "(int32 a + b + 2 ^ 31) mod 2 ^ 32 = (b + (a + 2 ^ 31) mod 2 ^ 32) mod 2 ^ 32"
    by (simp add: int32_def add.commute)
  also have "\<dots> = (b + (a + 2 ^ 31)) mod 2 ^ 32"
    by (rule mod_add_right_eq)
  also have "b + (a + 2 ^ 31) = a + b + 2 ^ 31"
    by simp
  finally show ?thesis
    by (simp add: int32_def)
qed

lemma two_keys_child_eq: "getLeftChildID two_keys (two_keys_root [0x10]) 0 = Inr (0, 1)"
  unfolding two_keys_root_def session_of_def by code_simp

lemma two_keys_child_gt: "getLeftChildID two_keys (two_keys_root [0x30]) 0 = Inr (2, 0)"
  unfolding two_keys_root_def session_of_def by code_simp

lemma two_keys_step_eq:
  "searchID_child two_keys 8 (- 1, 0, - 1, 0, two_keys_root [0x10]) =
     Inr (Continue (- 1, 1, 2, 4, two_keys_root [0x10]))"
  unfolding two_keys_root_def session_of_def by code_simp

lemma two_keys_step_gt:
  "searchID_child two_keys 8 (- 1, 0, - 1, 0, two_keys_root [0x30]) =
     Inr (Break (2, - 1, - 1, 0, two_keys_root [0x30]))"
  unfolding two_keys_root_def session_of_def by code_simp


section \<open>Inner prefixes in the three-way search\<close>





section \<open>Child resolution in the three-way search\<close>

text \<open>
  C2, as the code has it.  With \<open>(leftChild, has)\<close> obtained from child resolution at the
  key's label, and the child range of the node from \<open>leftMostChild = rank(from) + 1\<close> to
  \<open>rightMostChild = rank(to - 1) + bit(to - 1)\<close>: the matched child's NodeId is
  \<open>leftChild + has\<close> (and \<open>eqID\<close> is \<open>-1\<close> when there is no child); the id recorded into
  \<open>lID\<close>, when \<open>leftChild\<close> lies inside the child range, is \<open>leftChild\<close>; the id recorded
  into \<open>rID\<close>, when \<open>leftChild + has + 1\<close> lies inside the child range, is
  \<open>leftChild + has + 1\<close>.  Each is one less than the spec's formula.
\<close>

theorem searchID_child_ids:
  assumes "getLeftChildID st qr i = Inr (leftChild, has)"
    and "Inners (inner st) = Some inn"
    and "Rank128 (Words inn) (RankIndex inn) (qr_from qr) = Inr (lm, x)"
    and "Rank128 (Words inn) (RankIndex inn) (int32 (qr_to qr - 1)) = Inr (rm, b)"
  shows "\<exists>lID' eqID' rID' i'.
           (searchID_child st l (lID, eqID, rID, i, qr) = Inr (Continue (lID', eqID', rID', i', qr)) \<or>
            searchID_child st l (lID, eqID, rID, i, qr) = Inr (Break (lID', eqID', rID', i', qr))) \<and>
           (has \<noteq> 0 \<longrightarrow> eqID' = int32 (leftChild + has)) \<and>
           (has = 0 \<longrightarrow> eqID' = - 1) \<and>
           (int32 (lm + 1) \<le> leftChild \<and> leftChild \<le> int32 (rm + b) \<longrightarrow> lID' = leftChild) \<and>
           (int32 (lm + 1) \<le> int32 (leftChild + has + 1) \<and>
            int32 (leftChild + has + 1) \<le> int32 (rm + b) \<longrightarrow>
              rID' = int32 (leftChild + has + 1))"
  using assms
  by (simp add: searchID_child_def ebind_def deref_def Let_def int32_add_left)

text \<open>
  On the two-key trie, for the key \<open>0x10\<close> child resolution at the root gives \<open>(0, 1)\<close>
  and the pass goes on to the child 1 with \<open>rID = 2\<close>, not to \<open>0 + 1 + 1\<close> with
  \<open>rID = 0 + 1 + 2\<close>; for the key \<open>0x30\<close> it gives \<open>(2, 0)\<close> and records \<open>lID = 2\<close>, not
  \<open>2 + 1\<close>.
\<close>

theorem searchID_child_ids_counterexample:
  "getLeftChildID two_keys (two_keys_root [0x10]) 0 = Inr (0, 1) \<and>
   searchID_child two_keys 8 (- 1, 0, - 1, 0, two_keys_root [0x10]) =
     Inr (Continue (- 1, 1, 2, 4, two_keys_root [0x10])) \<and>
   (1 :: int) \<noteq> 0 + 1 + 1 \<and> (2 :: int) \<noteq> 0 + 1 + 2 \<and>
   getLeftChildID two_keys (two_keys_root [0x30]) 0 = Inr (2, 0) \<and>
   searchID_child two_keys 8 (- 1, 0, - 1, 0, two_keys_root [0x30]) =
     Inr (Break (2, - 1, - 1, 0, two_keys_root [0x30])) \<and>
   (2 :: int) \<noteq> 2 + 1"
  by (simp add: two_keys_child_eq two_keys_child_gt two_keys_step_eq two_keys_step_gt)

theorem searchID_child_ids_witness:
  "getLeftChildID two_keys (two_keys_root [0x10]) 0 = Inr (0, 1) \<and>
   Inners (inner two_keys) = Some two_keys_inners \<and>
   Rank128 (Words two_keys_inners) (RankIndex two_keys_inners) (qr_from (two_keys_root [0x10])) =
     Inr (0, 0) \<and>
   Rank128 (Words two_keys_inners) (RankIndex two_keys_inners)
     (int32 (qr_to (two_keys_root [0x10]) - 1)) = Inr (2, 0) \<and>
   searchID_child two_keys 8 (- 1, 0, - 1, 0, two_keys_root [0x10]) =
     Inr (Continue (- 1, 1, 2, 4, two_keys_root [0x10]))"
proof -
  have a: "Inners (inner two_keys) = Some two_keys_inners"
    by (simp add: two_keys_def two_keys_inners_def)
  have b: "Rank128 (Words two_keys_inners) (RankIndex two_keys_inners)
             (qr_from (two_keys_root [0x10])) = Inr (0, 0)"
    unfolding two_keys_root_def session_of_def by code_simp
  have c: "Rank128 (Words two_keys_inners) (RankIndex two_keys_inners)
             (int32 (qr_to (two_keys_root [0x10]) - 1)) = Inr (2, 0)"
    unfolding two_keys_root_def session_of_def by code_simp
  show ?thesis
    using searchID_child_ids [OF two_keys_child_eq a b c, of 8 "- 1" 0 "- 1"]
    by (simp add: a b c two_keys_child_eq two_keys_step_eq)
qed

lemma same_word:
  assumes "f mod 64 + k < 64"
  shows "(f + k) div 64 = f div 64 \<and> (f + k) mod 64 = f mod 64 + (k::nat)"
proof -
  have "f + k = f div 64 * 64 + (f mod 64 + k)" by simp
  then show ?thesis using assms
    by (metis div_mult_self3 mod_mult_self3 div_less mod_less add.right_neutral zero_neq_numeral)
qed

lemma next_word:
  assumes "64 \<le> f mod 64 + k" and "k \<le> 64"
  shows "(f + k) div 64 = f div 64 + 1 \<and> (f + k) mod 64 = f mod 64 + (k::nat) - 64"
proof -
  have "f mod 64 < 64" by simp
  then have lt: "f mod 64 + k - 64 < 64" using assms by linarith
  have "f + k = (f div 64 + 1) * 64 + (f mod 64 + k - 64)" using assms by simp
  then show ?thesis using lt
    by (metis div_mult_self3 mod_mult_self3 div_less mod_less add.right_neutral zero_neq_numeral)
qed


lemma bit_bit_field: "bit (bit_field ws f s) k \<longleftrightarrow> k < 64 \<and> k < s \<and> bit_at ws (f + k)"
  by (auto simp add: bit_field_def bit_horner_sum_bit_iff)

lemma field_one_word:
  assumes "f mod 64 + s \<le> 64"
  shows "drop_bit (f mod 64) (ws ! (f div 64)) AND mask s = bit_field ws f s"
proof (rule bit_eqI)
  fix k
  assume "possible_bit TYPE(u64) k"
  then have k: "k < 64" by simp
  show "bit (drop_bit (f mod 64) (ws ! (f div 64)) AND mask s) k = bit (bit_field ws f s) k"
  proof (cases "k < s")
    case True
    then have "f mod 64 + k < 64" using assms by linarith
    then have "bit_at ws (f + k) = bit (ws ! (f div 64)) (f mod 64 + k)"
      using same_word [of f k] by (simp add: bit_at_def)
    then show ?thesis
      using True k by (simp add: bit_bit_field bit_and_iff bit_drop_bit_eq bit_mask_iff)
  next
    case False
    then show ?thesis
      by (simp add: bit_bit_field bit_and_iff bit_mask_iff)
  qed
qed

lemma field_two_words:
  assumes "64 < f mod 64 + s" and "s \<le> 64"
  shows "drop_bit (f mod 64) (ws ! (f div 64)) OR
         (push_bit (64 - f mod 64) (ws ! ((f + s) div 64)) AND mask s) = bit_field ws f s"
proof (rule bit_eqI)
  fix k
  assume "possible_bit TYPE(u64) k"
  then have k: "k < 64" by simp
  have w2: "(f + s) div 64 = f div 64 + 1"
    using next_word [of f s] assms by simp
  have j: "f mod 64 < 64" by simp
  show "bit (drop_bit (f mod 64) (ws ! (f div 64)) OR
         (push_bit (64 - f mod 64) (ws ! ((f + s) div 64)) AND mask s)) k = bit (bit_field ws f s) k"
  proof (cases "f mod 64 + k < 64")
    case True
    then have a: "bit_at ws (f + k) = bit (ws ! (f div 64)) (f mod 64 + k)"
      using same_word [of f k] by (simp add: bit_at_def)
    have "k < s" using True assms by linarith
    moreover have "\<not> 64 - f mod 64 \<le> k" using True by linarith
    ultimately show ?thesis
      using k a by (simp add: bit_bit_field bit_or_iff bit_and_iff bit_drop_bit_eq bit_mask_iff
          bit_push_bit_iff)
  next
    case False
    then have ge: "64 \<le> f mod 64 + k" by simp
    have "k \<le> 64" using k by simp
    then have a: "bit_at ws (f + k) = bit (ws ! (f div 64 + 1)) (f mod 64 + k - 64)"
      using next_word [of f k] ge by (simp add: bit_at_def)
    have n: "\<not> bit (ws ! (f div 64)) (f mod 64 + k)"
      using ge bit_imp_le_length [of "ws ! (f div 64)" "f mod 64 + k"] by auto
    have e: "k - (64 - f mod 64) = f mod 64 + k - 64" using ge j by linarith
    have "64 - f mod 64 \<le> k" using ge by linarith
    then show ?thesis
      using k a n e w2 by (auto simp add: bit_bit_field bit_or_iff bit_and_iff bit_drop_bit_eq bit_mask_iff
          bit_push_bit_iff)
  qed
qed


lemma int32_range: "- 2147483648 \<le> int32 x \<and> int32 x < 2147483648"
  by (simp add: int32_def)

lemma at_Inr: "at xs i = Inr x \<Longrightarrow> 0 \<le> i \<and> nat i < length xs \<and> x = xs ! nat i"
  by (auto simp add: at_def split: if_splits)

lemma ebind_Inr: "ebind m f = Inr y \<longleftrightarrow> (\<exists>x. m = Inr x \<and> f x = Inr y)"
  by (cases m) (simp_all add: ebind_def)

lemma int32_nonneg_id:
  assumes "0 \<le> x" and "x < 4294967296" and "0 \<le> int32 x"
  shows "int32 x = x"
proof (cases "x < 2147483648")
  case True
  then show ?thesis using assms by (simp add: int32_id)
next
  case False
  then have "(x + 2147483648) mod 4294967296 = x + 2147483648 - 4294967296"
    using assms(2) by (simp add: mod_pos_geq)
  then have "int32 x = x - 4294967296" by (simp add: int32_def)
  then show ?thesis using assms by simp
qed

lemma getShortBM_field:
  assumes g: "getShortBM st inn from to = Inr b"
    and t: "to = int32 (from + ShortSize (inner st))"
    and s: "0 \<le> ShortSize (inner st)" "ShortSize (inner st) \<le> 64"
    and m: "ShortMask (vars st) = mask (nat (ShortSize (inner st)))"
    and f: "from < 2147483648"
  shows "\<exists>e. at (ShortTable (inner st))
               (uint (bit_field (Words inn) (nat from) (nat (ShortSize (inner st))))) = Inr e \<and>
             b = ucast e"
proof -
  let ?S = "ShortSize (inner st)"
  let ?ws = "Words inn"
  let ?v = "bit_field ?ws (nat from) (nat ?S)"
  from g obtain w c e where
    w: "at ?ws (drop_bit 6 from) = Inr w"
    and c: "(if from AND 63 \<le> int32 (64 - ?S)
             then Inr (drop_bit (nat (from AND 63)) w AND ShortMask (vars st))
             else ebind (at ?ws (drop_bit 6 to)) (\<lambda>w2.
                  Inr (drop_bit (nat (from AND 63)) w OR
                       (push_bit (nat (int32 (64 - (from AND 63)))) w2 AND ShortMask (vars st))))) = Inr c"
    and e: "at (ShortTable (inner st)) (uint c) = Inr e" and b: "b = ucast e"
    unfolding getShortBM_def Let_def ebind_Inr by blast
  from w have f0: "0 \<le> from" and wv: "w = ?ws ! (nat from div 64)"
    using at_Inr [OF w] by (simp_all add: drop_bit_6 pos_imp_zdiv_nonneg_iff nat_div_distrib)
  have j: "nat (from AND 63) = nat from mod 64"
    using f0 by (simp add: and_63 nat_mod_distrib)
  have j': "from AND 63 = int (nat from mod 64)"
    using f0 by (simp add: and_63 zmod_int)
  have S64: "int32 (64 - ?S) = 64 - ?S" using s by (simp add: int32_id)
  have jj: "int32 (64 - (from AND 63)) = 64 - int (nat from mod 64)"
    by (simp add: j' int32_id)
  have "c = ?v"
  proof (cases "from AND 63 \<le> int32 (64 - ?S)")
    case True
    then have "nat from mod 64 + nat ?S \<le> 64" using s by (simp add: S64 j')
    then show ?thesis
      using c True field_one_word [of "nat from" "nat ?S" ?ws]
      by (simp add: j wv m)
  next
    case False
    then have a: "64 < nat from mod 64 + nat ?S" using s by (simp add: S64 j')
    have b: "nat ?S \<le> 64" using s by simp
    from c False obtain w2 where w2: "at ?ws (drop_bit 6 to) = Inr w2"
      and cv: "c = drop_bit (nat (from AND 63)) w OR
                 (push_bit (nat (int32 (64 - (from AND 63)))) w2 AND ShortMask (vars st))"
      by (auto simp add: ebind_Inr)
    have "0 \<le> to div 64" using at_Inr [OF w2] by (simp add: drop_bit_6)
    then have "0 \<le> to" by (simp add: pos_imp_zdiv_nonneg_iff)
    then have "to = from + ?S"
      using int32_nonneg_id [of "from + ?S"] t f0 f s by simp
    then have "nat (drop_bit 6 to) = (nat from + nat ?S) div 64"
      using f0 s by (simp add: drop_bit_6 nat_div_distrib nat_add_distrib)
    then have w2v: "w2 = ?ws ! ((nat from + nat ?S) div 64)"
      using at_Inr [OF w2] by simp
    have "nat (64 - int (nat from mod 64)) = 64 - nat from mod 64" by linarith
    then show ?thesis
      using field_two_words [OF a b, of ?ws]
      by (simp add: cv j jj wv w2v m)
  qed
  then show ?thesis using e b by simp
qed


lemma ebindE:
  assumes "ebind m f = Inr y"
  obtains x where "m = Inr x" and "f x = Inr y"
  using assms by (cases m) (simp_all add: ebind_def)

lemma same_node_simps:
  "same_node q q"
  "same_node q (q\<lparr>innerPrefixLen := n\<rparr>)"
  "same_node q (q\<lparr>innerPrefix := p, innerPrefixLen := n, hasInnerPrefix := h\<rparr>)"
  by (simp_all add: same_node_def)

lemma getLeafPrefix_keeps:
  assumes "getLeafPrefix st nodeId q = Inr q'"
  shows "isInner q' = isInner q \<and> ithInner q' = ithInner q \<and> key q' = key q \<and>
         keyBitLen q' = keyBitLen q"
  using assms unfolding getLeafPrefix_def Let_def
  apply -
  apply ((erule ebindE | clarsimp split: if_splits option.splits)+)
  done

lemma getInnerPrefix_keeps:
  assumes "getInnerPrefix lib st q = Inr q'"
  shows "same_node q q'"
  using assms unfolding getInnerPrefix_def Let_def
  apply -
  apply ((erule ebindE | clarsimp simp add: same_node_simps split: if_splits option.splits)+)
  done


lemma deref_Inr: "deref p = Inr x \<longleftrightarrow> p = Some x"
  by (cases p) (simp_all add: deref_def)

lemma getNode_cases:
  assumes "getNode lib st nodeId qr0 = Inr qr"
  obtains nt ii isIn where
    "NodeTypeBM (inner st) = Some nt"
    "Rank64 (Words nt) (RankIndex nt) nodeId = Inr (ii, isIn)"
    "isIn = 0 \<longrightarrow>
       getLeafPrefix st nodeId
         (qr0\<lparr>innerPrefixLen := 0, hasInnerPrefix := False, ithInner := ii, isInner := isIn\<rparr>) = Inr qr"
    "isIn \<noteq> 0 \<longrightarrow>
       (\<exists>q1. getInnerRange st
                (qr0\<lparr>innerPrefixLen := 0, hasInnerPrefix := False, ithInner := ii,
                     isInner := isIn\<rparr>) = Inr q1 \<and>
             getInnerPrefix lib st q1 = Inr qr)"
  using assms unfolding getNode_def Let_def
  apply -
  apply (erule ebindE)+
  apply (clarsimp simp add: deref_Inr split: if_splits)
  apply (erule ebindE)
  apply blast
  done

lemma getInnerRange_keeps:
  assumes "getInnerRange st q = Inr q1"
  shows "isInner q1 = isInner q \<and> ithInner q1 = ithInner q \<and> key q1 = key q \<and>
         keyBitLen q1 = keyBitLen q \<and> hasLeafPrefix q1 = hasLeafPrefix q \<and>
         leafPrefix q1 = leafPrefix q \<and> hasInnerPrefix q1 = hasInnerPrefix q \<and>
         innerPrefixLen q1 = innerPrefixLen q"
  using assms unfolding getInnerRange_def Let_def
  apply -
  apply ((erule ebindE | clarsimp split: if_splits)+)
  done

lemma getInnerRange_normal:
  assumes "getInnerRange st q = Inr q1"
    and "\<not> ithInner q < BigInnerCnt (inner st)"
    and "ShortBM (inner st) = Some sb"
    and "Rank64 (Words sb) (RankIndex sb) (ithInner q) = Inr (ithShort, isShort)"
  shows "qr_from q1 = int32 (BigInnerOffset (vars st) + 17 * ithInner q
                             + ShortMinusInner (vars st) * ithShort) \<and>
         (isShort \<noteq> 0 \<longrightarrow>
            qr_to q1 = int32 (qr_from q1 + ShortSize (inner st)) \<and>
            (\<exists>inn. Inners (inner st) = Some inn \<and>
                   getShortBM st inn (qr_from q1) (qr_to q1) = Inr (bm q1)))"
  using assms unfolding getInnerRange_def Let_def
  apply -
  apply ((erule ebindE | clarsimp simp add: deref_Inr split: if_splits)+)
  done

lemma short_node0: "getNode bitstr_bytes short_trie 0 (session_of k) = Inr (short_root k)"
  unfolding session_of_def short_root_def by code_simp


section \<open>The layout of normal and short inner nodes\<close>

text \<open>
  C5.  For an inner node that is not big (\<open>ithInner \<ge> BigInnerCnt\<close>), with
  \<open>(ithShort, isShort)\<close> the rank of \<open>ShortBM\<close> at \<open>ithInner\<close>, the node decoder computes
  \<open>from = BigInnerOffset + 17 * ithInner + (ShortSize - 17) * ithShort\<close> (in \<open>int32\<close>
  arithmetic); and if the node is short, \<open>to = from + ShortSize\<close> and the expanded bitmap
  \<open>bm\<close> is \<open>ShortTable\<close> indexed by the \<open>ShortSize\<close>-bit field of \<open>Inners.Words\<close> that
  starts at bit \<open>from\<close>, whether or not the field crosses a 64-bit word boundary.  The
  derived constants are as the spec gives them: \<open>ShortMinusInner = ShortSize - 17\<close>,
  \<open>ShortMask = 2^ShortSize - 1\<close>, and \<open>ShortSize\<close> is at most 64.
\<close>

theorem getNode_short_layout:
  assumes "getNode lib st nodeId qr0 = Inr qr"
    and "isInner qr \<noteq> 0" and "\<not> ithInner qr < BigInnerCnt (inner st)"
    and "ShortBM (inner st) = Some sb"
    and "Rank64 (Words sb) (RankIndex sb) (ithInner qr) = Inr (ithShort, isShort)"
    and "Inners (inner st) = Some inn"
    and "ShortMinusInner (vars st) = ShortSize (inner st) - 17"
    and "ShortMask (vars st) = mask (nat (ShortSize (inner st)))"
    and "0 \<le> ShortSize (inner st)" and "ShortSize (inner st) \<le> 64"
  shows "qr_from qr = int32 (BigInnerOffset (vars st) + 17 * ithInner qr
                             + (ShortSize (inner st) - 17) * ithShort) \<and>
         (isShort \<noteq> 0 \<longrightarrow>
            qr_to qr = int32 (qr_from qr + ShortSize (inner st)) \<and>
            (\<exists>e. at (ShortTable (inner st))
                    (uint (bit_field (Words inn) (nat (qr_from qr))
                             (nat (ShortSize (inner st))))) = Inr e \<and>
                 bm qr = ucast e))"
proof -
  from assms(1) obtain nt ii isIn where
    l: "isIn = 0 \<longrightarrow>
       getLeafPrefix st nodeId
         (qr0\<lparr>innerPrefixLen := 0, hasInnerPrefix := False, ithInner := ii, isInner := isIn\<rparr>) = Inr qr"
    and i: "isIn \<noteq> 0 \<longrightarrow>
       (\<exists>q1. getInnerRange st
                (qr0\<lparr>innerPrefixLen := 0, hasInnerPrefix := False, ithInner := ii,
                     isInner := isIn\<rparr>) = Inr q1 \<and>
             getInnerPrefix lib st q1 = Inr qr)"
    by (rule getNode_cases)
  let ?q0 = "qr0\<lparr>innerPrefixLen := 0, hasInnerPrefix := False, ithInner := ii, isInner := isIn\<rparr>"
  have "isIn \<noteq> 0"
  proof
    assume z: "isIn = 0"
    then have "getLeafPrefix st nodeId ?q0 = Inr qr" using l by simp
    then have "isInner qr = isInner ?q0" by (simp add: getLeafPrefix_keeps)
    then show False using z assms(2) by simp
  qed
  then obtain q1 where r: "getInnerRange st ?q0 = Inr q1" and p: "getInnerPrefix lib st q1 = Inr qr"
    using i by blast
  have k: "same_node q1 qr" using p by (rule getInnerPrefix_keeps)
  have ii: "ithInner qr = ii"
    using k getInnerRange_keeps [OF r] by (simp add: same_node_def)
  have n: "\<not> ithInner ?q0 < BigInnerCnt (inner st)" using assms(3) ii by simp
  have rk: "Rank64 (Words sb) (RankIndex sb) (ithInner ?q0) = Inr (ithShort, isShort)"
    using assms(5) ii by simp
  note nr = getInnerRange_normal [OF r n assms(4) rk]
  have f: "qr_from qr = int32 (BigInnerOffset (vars st) + 17 * ithInner qr
                             + (ShortSize (inner st) - 17) * ithShort)"
    using nr k ii assms(7) by (simp add: same_node_def)
  have s: "qr_to qr = int32 (qr_from qr + ShortSize (inner st)) \<and>
            (\<exists>e. at (ShortTable (inner st))
                    (uint (bit_field (Words inn) (nat (qr_from qr))
                             (nat (ShortSize (inner st))))) = Inr e \<and>
                 bm qr = ucast e)" if sh: "isShort \<noteq> 0"
  proof -
    have t: "qr_to qr = int32 (qr_from qr + ShortSize (inner st))"
      and g: "getShortBM st inn (qr_from qr) (qr_to qr) = Inr (bm qr)"
      using nr sh k assms(6) by (auto simp add: same_node_def)
    have b: "qr_from qr < 2147483648" using f int32_range by simp
    show ?thesis
      using t getShortBM_field [OF g t assms(9) assms(10) assms(8) b] by simp
  qed
  show ?thesis using f s by blast
qed


theorem getNode_short_layout_witness:
  "getNode bitstr_bytes short_trie 0 (session_of [0x10]) = Inr (short_root [0x10]) \<and>
   Rank64 (Words short_bm) (RankIndex short_bm) (ithInner (short_root [0x10])) = Inr (0, 1) \<and>
   qr_from (short_root [0x10]) = 63 \<and> qr_to (short_root [0x10]) = 65 \<and>
   bit_field (Words short_inners) 63 2 = 3 \<and>
   at (ShortTable (inner short_trie)) 3 = Inr 12 \<and> bm (short_root [0x10]) = 12"
proof -
  have a: "isInner (short_root [0x10]) \<noteq> 0"
    "\<not> ithInner (short_root [0x10]) < BigInnerCnt (inner short_trie)"
    "ShortBM (inner short_trie) = Some short_bm"
    "Inners (inner short_trie) = Some short_inners"
    "ShortMinusInner (vars short_trie) = ShortSize (inner short_trie) - 17"
    "0 \<le> ShortSize (inner short_trie)" "ShortSize (inner short_trie) \<le> 64"
    by (simp_all add: short_root_def short_trie_def two_keys_def short_bm_def short_inners_def
        session_of_def querySession0_def)
  have m: "ShortMask (vars short_trie) = mask (nat (ShortSize (inner short_trie)))"
    by (simp add: short_trie_def two_keys_def mask_eq_exp_minus_1)
  have r: "Rank64 (Words short_bm) (RankIndex short_bm) (ithInner (short_root [0x10])) = Inr (0, 1)"
    unfolding short_root_def session_of_def by code_simp
  have f: "bit_field (Words short_inners) 63 2 = 3"
    by code_simp
  have t: "at (ShortTable (inner short_trie)) 3 = Inr 12"
    by code_simp
  have q: "qr_from (short_root [0x10]) = 63" "qr_to (short_root [0x10]) = 65"
    "bm (short_root [0x10]) = 12"
    by (simp_all add: short_root_def)
  show ?thesis
    using getNode_short_layout [OF short_node0 a(1) a(2) a(3) r a(4) a(5) m a(6) a(7)]
    by (simp add: short_node0 r q f t)
qed








section \<open>Leaf prefixes in the exact lookup\<close>




text \<open>Bounds on ranks, child ids and selected positions.\<close>

lemma OnesCount64_bounds: "0 \<le> OnesCount64 w \<and> OnesCount64 w \<le> 64"
proof -
  have "length (filter (bit w) [0..<64]) \<le> length [0..<64::nat]" by (rule length_filter_le)
  then show ?thesis by (simp add: OnesCount64_def)
qed

lemma length_filter_below:
  assumes "\<And>n. P n \<Longrightarrow> n < j"
  shows "length (filter P [0..<m]) \<le> j"
proof -
  have d: "distinct (filter P [0..<m])" by simp
  have "set (filter P [0..<m]) \<subseteq> {0..<j}" using assms by auto
  then have "card (set (filter P [0..<m])) \<le> card {0..<j}" by (intro card_mono) simp_all
  then show ?thesis using distinct_card [OF d] by simp
qed

lemma OnesCount64_mask: "OnesCount64 (w AND mask j) \<le> int j"
proof -
  have "length (filter (bit (w AND mask j)) [0..<64]) \<le> j"
    by (rule length_filter_below) (simp add: bit_and_iff bit_mask_iff)
  then show ?thesis by (simp add: OnesCount64_def)
qed

lemma sum_OnesCount64: "sum_list (map OnesCount64 xs) \<le> 64 * int (length xs) \<and> 0 \<le> sum_list (map OnesCount64 xs)"
proof (induction xs)
  case Nil
  then show ?case by simp
next
  case (Cons x xs)
  then show ?case using OnesCount64_bounds [of x] by simp
qed

lemma rank_before_bounds: "0 \<le> rank_before ws p \<and> rank_before ws p \<le> int p"
proof -
  have a: "sum_list (map OnesCount64 (take (p div 64) ws)) \<le> 64 * int (p div 64)"
    using sum_OnesCount64 [of "take (p div 64) ws"] by (simp add: min_def split: if_splits)
  have b: "0 \<le> sum_list (map OnesCount64 (take (p div 64) ws))"
    using sum_OnesCount64 [of "take (p div 64) ws"] by simp
  have c: "OnesCount64 ((ws ! (p div 64)) AND mask (p mod 64)) \<le> int (p mod 64)"
    by (rule OnesCount64_mask)
  have d: "0 \<le> OnesCount64 ((ws ! (p div 64)) AND mask (p mod 64))"
    using OnesCount64_bounds by simp
  have "p = 64 * (p div 64) + p mod 64" by simp
  then have "int p = 64 * int (p div 64) + int (p mod 64)" by linarith
  then show ?thesis using a b c d unfolding rank_before_def by linarith
qed

lemma int32_succ_not_minus1:
  assumes "0 \<le> x" and "x < 2147483648 + 64"
  shows "int32 (int32 x + 1) \<noteq> - 1"
proof (cases "x < 2147483648")
  case True
  then have "int32 x = x" using assms by (simp add: int32_id)
  moreover have "int32 (x + 1) \<noteq> - 1"
  proof (cases "x + 1 < 2147483648")
    case True
    then show ?thesis using assms by (simp add: int32_id)
  next
    case False
    then have "x + 1 = 2147483648" using \<open>x < 2147483648\<close> by simp
    then show ?thesis by (simp add: int32_def)
  qed
  ultimately show ?thesis by simp
next
  case False
  then have "(x + 2147483648) mod 4294967296 = x + 2147483648 - 4294967296"
    using assms by (simp add: mod_pos_geq)
  then have e: "int32 x = x - 4294967296" by (simp add: int32_def)
  then have "- 2147483648 \<le> int32 x + 1 \<and> int32 x + 1 < - 2147483648 + 66"
    using False assms by simp
  then have "int32 (int32 x + 1) = int32 x + 1" by (simp add: int32_id)
  then show ?thesis using e False assms by simp
qed

lemma uint_and_1: "uint ((w :: u64) AND 1) = 0 \<or> uint (w AND 1) = 1"
proof -
  have "w AND 1 = of_bool (odd w)" by (simp add: and_one_eq mod_2_eq_odd)
  then show ?thesis by (cases "odd w") simp_all
qed


lemma Rank128_bounds:
  assumes "Rank128 ws ri i = Inr (r, b)" and "i < 2147483648"
  shows "0 \<le> r \<and> r \<le> i \<and> (b = 0 \<or> b = 1)"
proof -
  have i: "0 \<le> i" and r: "r = int32 (rank_before ws (nat i))" and b: "b = 0 \<or> b = 1"
    using assms(1) by (auto simp add: Rank128_def split: if_splits)
  have "0 \<le> rank_before ws (nat i) \<and> rank_before ws (nat i) \<le> i"
    using rank_before_bounds [of ws "nat i"] i by simp
  then show ?thesis using r b assms(2) by (simp add: int32_id)
qed

lemma Rank64_bit:
  assumes "Rank64 ws ri i = Inr (r, b)"
  shows "b = 0 \<or> b = 1"
  using assms by (auto simp add: Rank64_def split: if_splits)

lemma getLeftChildID_bounds:
  assumes "getLeftChildID st qr i = Inr (lch, has)" and "qr_from qr < 2147483648"
  shows "int32 (lch + 1) \<noteq> - 1 \<and> (has = 0 \<or> has = 1)"
proof -
  from assms(1) obtain ithBit inn where
    inn: "Inners (inner st) = Some inn"
    and c: "(if int32 (qr_to qr - qr_from qr) = ShortSize (inner st) then
        ebind (Rank128 (Words inn) (RankIndex inn) (qr_from qr)) (\<lambda>(r0, _).
        ebind (Mask ithBit) (\<lambda>m.
        Inr (int32 (r0 + OnesCount64 (bm qr AND m)),
             uint (drop_bit (nat ithBit) (bm qr) AND 1))))
      else Rank128 (Words inn) (RankIndex inn) (int32 (qr_from qr + ithBit))) = Inr (lch, has)"
    unfolding getLeftChildID_def Let_def
    apply -
    apply (erule ebindE)+
    apply (simp add: deref_Inr)
    done
  show ?thesis
  proof (cases "int32 (qr_to qr - qr_from qr) = ShortSize (inner st)")
    case True
    with c have c': "ebind (Rank128 (Words inn) (RankIndex inn) (qr_from qr)) (\<lambda>(r0, _).
        ebind (Mask ithBit) (\<lambda>m.
        Inr (int32 (r0 + OnesCount64 (bm qr AND m)),
             uint (drop_bit (nat ithBit) (bm qr) AND 1)))) = Inr (lch, has)"
      by simp
    from c' have "\<exists>r0 x m. Rank128 (Words inn) (RankIndex inn) (qr_from qr) = Inr (r0, x) \<and>
        lch = int32 (r0 + OnesCount64 (bm qr AND m)) \<and>
        has = uint (drop_bit (nat ithBit) (bm qr) AND 1)"
      apply -
      apply (erule ebindE)
      apply (clarsimp)
      apply (erule ebindE)
      apply auto
      done
    then obtain r0 x m where r0: "Rank128 (Words inn) (RankIndex inn) (qr_from qr) = Inr (r0, x)"
      and l: "lch = int32 (r0 + OnesCount64 (bm qr AND m))"
      and h: "has = uint (drop_bit (nat ithBit) (bm qr) AND 1)"
      by blast
    have "0 \<le> r0 \<and> r0 < 2147483648"
      using Rank128_bounds [OF r0 assms(2)] assms(2) by simp
    moreover have "0 \<le> OnesCount64 (bm qr AND m) \<and> OnesCount64 (bm qr AND m) \<le> 64"
      by (rule OnesCount64_bounds)
    ultimately have "int32 (int32 (r0 + OnesCount64 (bm qr AND m)) + 1) \<noteq> - 1"
      by (intro int32_succ_not_minus1) simp_all
    then show ?thesis using l h uint_and_1 [of "drop_bit (nat ithBit) (bm qr)"] by simp
  next
    case False
    with c have r: "Rank128 (Words inn) (RankIndex inn) (int32 (qr_from qr + ithBit)) = Inr (lch, has)"
      by simp
    have "int32 (qr_from qr + ithBit) < 2147483648" using int32_range by simp
    then have b: "0 \<le> lch \<and> lch < 2147483648 \<and> (has = 0 \<or> has = 1)"
      using Rank128_bounds [OF r] by simp
    then have "int32 lch = lch" by (simp add: int32_id)
    moreover have "int32 (int32 lch + 1) \<noteq> - 1"
      using b by (intro int32_succ_not_minus1) simp_all
    ultimately show ?thesis using b by simp
  qed
qed

lemma ones_positions_sorted: "sorted_wrt (<) (ones_positions ws)"
  unfolding ones_positions_def by (rule sorted_wrt_filter) simp

lemma ones_positions_bound: "p \<in> set (ones_positions ws) \<Longrightarrow> p < 64 * length ws"
  by (simp add: ones_positions_def)

lemma Select32R64_strict:
  assumes "Select32R64 ws si ri k = Inr (a, b)" and "64 * int (length ws) \<le> 2147483648"
  shows "a < b"
proof -
  let ?ps = "ones_positions ws"
  have k: "0 \<le> k" "nat k + 1 < length ?ps"
    and a: "a = int32 (int (?ps ! nat k))" and b: "b = int32 (int (?ps ! (nat k + 1)))"
    using assms(1) by (auto simp add: Select32R64_def Let_def split: if_splits)
  have lt: "?ps ! nat k < ?ps ! (nat k + 1)"
    using sorted_wrt_nth_less [OF ones_positions_sorted, of "nat k" "nat k + 1" ws] k by simp
  have "?ps ! nat k \<in> set ?ps" "?ps ! (nat k + 1) \<in> set ?ps" using k by simp_all
  then have "?ps ! nat k < 64 * length ws" "?ps ! (nat k + 1) < 64 * length ws"
    by (simp_all add: ones_positions_bound)
  then have "int (?ps ! nat k) < 2147483648" "int (?ps ! (nat k + 1)) < 2147483648"
    using assms(2) by linarith+
  then show ?thesis using a b lt by (simp add: int32_id)
qed

lemma slice_nonempty: "slice xs a b = Inr ys \<Longrightarrow> a < b \<Longrightarrow> ys \<noteq> []"
  by (auto simp add: slice_def split: if_splits)

end
